theory Spec2Isabelle
  imports Complex_Main "HOL-Library.Log_Nat"
begin

section \<open>Safe Harbor 2025 tax calculation (client/src/lib)\<close>

text \<open>
  A shallow embedding of the calculation module: the constant tables
  \<open>TAX_CONSTANTS_2025\<close> and \<open>TAX_BRACKETS_2025\<close>, and the functions
  \<open>calculateSelfEmploymentTax\<close>, \<open>calculateIncomeTax\<close>, \<open>calculateSafeHarbor\<close>,
  \<open>calculateTaxes\<close> and \<open>parseCurrency\<close>.

  The TypeScript type \<open>number\<close> is read as \<^typ>\<open>real\<close>: every arithmetic operation is
  the exact one, so the rounding of IEEE doubles, the values \<open>NaN\<close> and \<open>-0\<close>, and
  overflow are outside the model. The one non-finite value the source writes itself,
  the upper bound \<open>Infinity\<close> of the last bracket, is kept as a constructor of its own.

  Where the rounding decides a property, the exactness of the bracket walk, the income
  tax is modelled a second time, as \<open>calculateIncomeTax64\<close>, with every arithmetic
  operation rounded to binary64 by \<open>round64\<close>.
\<close>

subsection \<open>Data model\<close>

datatype FilingStatus = Single | Married

text \<open>A bracket bound: a finite number, or the \<open>Infinity\<close> of the last bracket.\<close>

datatype bound = Finite real | Infinity

record TaxBracket =
  bracket_min :: real
  bracket_max :: bound
  bracket_rate :: real

record TaxConstants =
  standardDeduction :: "FilingStatus \<Rightarrow> real"
  socialSecurityWageBase :: real
  socialSecurityRate :: real
  medicareRate :: real
  additionalMedicareRate :: real
  additionalMedicareThreshold :: "FilingStatus \<Rightarrow> real"
  seTaxDeductionRate :: real
  safeHarborHighIncomeThreshold :: real
  safeHarborHighIncomeMultiplier :: real
  safeHarborStandardMultiplier :: real
  currentYearAvoidanceMultiplier :: real

record TaxInputs =
  filingStatus :: FilingStatus
  priorYearTax :: real
  priorYearAGI :: real
  currentYearProfit :: real

record SelfEmploymentTaxBreakdown =
  socialSecurityTax :: real
  medicareTax :: real
  additionalMedicareTax :: real
  totalSETax :: real
  seTaxDeduction :: real

record BracketDetail =
  rate :: real
  taxableAtRate :: real
  taxAtRate :: real

record IncomeTaxBreakdown =
  taxableIncome :: real
  federalIncomeTax :: real
  bracketDetails :: "BracketDetail list"

text \<open>The object returned by \<open>calculateSafeHarbor\<close>; its fields are \<open>safeHarborMinimum\<close>
  and \<open>multiplier\<close> in the source.\<close>

record SafeHarborResult =
  sh_safeHarborMinimum :: real
  sh_multiplier :: real

record TaxCalculationResult =
  selfEmploymentTax :: SelfEmploymentTaxBreakdown
  incomeTax :: IncomeTaxBreakdown
  currentYearTotalTax :: real
  currentYearAvoidanceMinimum :: real
  safeHarborMultiplier :: real
  safeHarborMinimum :: real
  requiredAnnualPayment :: real
  quarterlyPayment :: real
  isCurrentYearLower :: bool
  savings :: real

subsection \<open>Constant tables\<close>

definition TAX_CONSTANTS_2025 :: TaxConstants where
  "TAX_CONSTANTS_2025 =
     \<lparr> standardDeduction = (\<lambda>s. case s of Single \<Rightarrow> 15750 | Married \<Rightarrow> 31500),
       socialSecurityWageBase = 176100,
       socialSecurityRate = 0.124,
       medicareRate = 0.029,
       additionalMedicareRate = 0.009,
       additionalMedicareThreshold = (\<lambda>s. case s of Single \<Rightarrow> 200000 | Married \<Rightarrow> 250000),
       seTaxDeductionRate = 0.5,
       safeHarborHighIncomeThreshold = 150000,
       safeHarborHighIncomeMultiplier = 1.1,
       safeHarborStandardMultiplier = 1.0,
       currentYearAvoidanceMultiplier = 0.9 \<rparr>"

fun TAX_BRACKETS_2025 :: "FilingStatus \<Rightarrow> TaxBracket list" where
  "TAX_BRACKETS_2025 Single =
     [ \<lparr> bracket_min = 0, bracket_max = Finite 11925, bracket_rate = 0.10 \<rparr>,
       \<lparr> bracket_min = 11926, bracket_max = Finite 48475, bracket_rate = 0.12 \<rparr>,
       \<lparr> bracket_min = 48476, bracket_max = Finite 103350, bracket_rate = 0.22 \<rparr>,
       \<lparr> bracket_min = 103351, bracket_max = Finite 197300, bracket_rate = 0.24 \<rparr>,
       \<lparr> bracket_min = 197301, bracket_max = Finite 250525, bracket_rate = 0.32 \<rparr>,
       \<lparr> bracket_min = 250526, bracket_max = Finite 626350, bracket_rate = 0.35 \<rparr>,
       \<lparr> bracket_min = 626351, bracket_max = Infinity, bracket_rate = 0.37 \<rparr> ]"
| "TAX_BRACKETS_2025 Married =
     [ \<lparr> bracket_min = 0, bracket_max = Finite 23850, bracket_rate = 0.10 \<rparr>,
       \<lparr> bracket_min = 23851, bracket_max = Finite 96950, bracket_rate = 0.12 \<rparr>,
       \<lparr> bracket_min = 96951, bracket_max = Finite 206700, bracket_rate = 0.22 \<rparr>,
       \<lparr> bracket_min = 206701, bracket_max = Finite 394600, bracket_rate = 0.24 \<rparr>,
       \<lparr> bracket_min = 394601, bracket_max = Finite 501050, bracket_rate = 0.32 \<rparr>,
       \<lparr> bracket_min = 501051, bracket_max = Finite 751600, bracket_rate = 0.35 \<rparr>,
       \<lparr> bracket_min = 751601, bracket_max = Infinity, bracket_rate = 0.37 \<rparr> ]"

subsection \<open>Self-employment tax\<close>

definition calculateSelfEmploymentTax :: "real \<Rightarrow> FilingStatus \<Rightarrow> SelfEmploymentTaxBreakdown" where
  "calculateSelfEmploymentTax netProfit fs =
     (let seTaxableEarnings = netProfit * 0.9235;
          socialSecurityTaxable = min seTaxableEarnings (socialSecurityWageBase TAX_CONSTANTS_2025);
          socialSecurityTax' = socialSecurityTaxable * socialSecurityRate TAX_CONSTANTS_2025;
          medicareTax' = seTaxableEarnings * medicareRate TAX_CONSTANTS_2025;
          additionalMedicareThreshold' = additionalMedicareThreshold TAX_CONSTANTS_2025 fs;
          additionalMedicareTaxable = max 0 (seTaxableEarnings - additionalMedicareThreshold');
          additionalMedicareTax' = additionalMedicareTaxable * additionalMedicareRate TAX_CONSTANTS_2025;
          totalSETax' = socialSecurityTax' + medicareTax' + additionalMedicareTax';
          seTaxDeduction' = totalSETax' * seTaxDeductionRate TAX_CONSTANTS_2025
      in \<lparr> socialSecurityTax = socialSecurityTax',
           medicareTax = medicareTax',
           additionalMedicareTax = additionalMedicareTax',
           totalSETax = totalSETax',
           seTaxDeduction = seTaxDeduction' \<rparr>)"

subsection \<open>Safe Harbor minimum\<close>

definition calculateSafeHarbor :: "real \<Rightarrow> real \<Rightarrow> SafeHarborResult" where
  "calculateSafeHarbor priorYearTax' priorYearAGI' =
     (let multiplier =
            (if priorYearAGI' > safeHarborHighIncomeThreshold TAX_CONSTANTS_2025
             then safeHarborHighIncomeMultiplier TAX_CONSTANTS_2025
             else safeHarborStandardMultiplier TAX_CONSTANTS_2025)
      in \<lparr> sh_safeHarborMinimum = priorYearTax' * multiplier,
           sh_multiplier = multiplier \<rparr>)"

subsection \<open>Federal income tax\<close>

text \<open>\<open>bracket.max - bracket.min + 1\<close>; on the last bracket it is \<open>Infinity - min + 1\<close>,
  which is \<open>Infinity\<close>.\<close>

definition bracketSize :: "TaxBracket \<Rightarrow> bound" where
  "bracketSize bracket =
     (case bracket_max bracket of
        Finite m \<Rightarrow> Finite (m - bracket_min bracket + 1)
      | Infinity \<Rightarrow> Infinity)"

text \<open>\<open>Math.min\<close> of a finite number and a bracket size.\<close>

definition Math_min :: "real \<Rightarrow> bound \<Rightarrow> real" where
  "Math_min x s = (case s of Finite c \<Rightarrow> min x c | Infinity \<Rightarrow> x)"

text \<open>
  The \<open>for (const bracket of brackets)\<close> loop of \<open>calculateIncomeTax\<close>, with its three
  mutable variables passed along. The first test of the body is the \<open>break\<close>.
\<close>

fun bracketLoop ::
  "TaxBracket list \<Rightarrow> real \<Rightarrow> real \<Rightarrow> BracketDetail list \<Rightarrow> real \<times> BracketDetail list" where
  "bracketLoop [] remainingIncome totalTax details = (totalTax, details)"
| "bracketLoop (bracket # brackets) remainingIncome totalTax details =
     (if remainingIncome \<le> 0 then (totalTax, details)
      else
        let taxableAtRate' = Math_min remainingIncome (bracketSize bracket);
            taxAtRate' = taxableAtRate' * bracket_rate bracket;
            details' =
              (if taxableAtRate' > 0
               then details @ [\<lparr> rate = bracket_rate bracket,
                                  taxableAtRate = taxableAtRate',
                                  taxAtRate = taxAtRate' \<rparr>]
               else details)
        in bracketLoop brackets (remainingIncome - taxableAtRate') (totalTax + taxAtRate') details')"

definition calculateIncomeTax :: "real \<Rightarrow> real \<Rightarrow> FilingStatus \<Rightarrow> IncomeTaxBreakdown" where
  "calculateIncomeTax netProfit seTaxDeduction' fs =
     (let standardDeduction' = standardDeduction TAX_CONSTANTS_2025 fs;
          brackets = TAX_BRACKETS_2025 fs;
          agi = netProfit - seTaxDeduction';
          taxableIncome' = max 0 (agi - standardDeduction');
          (totalTax, details) = bracketLoop brackets taxableIncome' 0 []
      in \<lparr> taxableIncome = taxableIncome',
           federalIncomeTax = totalTax,
           bracketDetails = details \<rparr>)"

subsection \<open>Binary64 arithmetic\<close>

text \<open>The nearest integer, a tie going to the even one.\<close>

definition roundHalfEven :: "real \<Rightarrow> int" where
  "roundHalfEven r =
     (let f = \<lfloor>r\<rfloor>; d = r - real_of_int f
      in if d < 1 / 2 then f else if 1 / 2 < d then f + 1 else if even f then f else f + 1)"

text \<open>
  Every finite double is an integer multiple of the smallest positive one, 2 to the
  power -1074; \<open>scale64\<close> is its reciprocal.
\<close>

definition scale64 :: real where
  "scale64 = 2 ^ 1074"

text \<open>
  Rounding to the nearest double, ties to even, as every arithmetic operation of the
  source does to its exact result. \<open>n\<close> is the magnitude in units of the smallest double;
  its integer part has \<open>bitlen\<close> bits; \<open>u\<close> is the spacing of the doubles around \<open>n\<close> in the
  same units, which leaves 53 significant bits, and is 1 throughout the subnormal range.
  The exponent is not bounded above: a result of magnitude 2 to the power 1024 or more,
  which is \<open>Infinity\<close> in the source, stays finite here.
\<close>

definition round64 :: "real \<Rightarrow> real" where
  "round64 x =
     (let n = \<bar>x\<bar> * scale64;
          u = 2 ^ nat (bitlen \<lfloor>n\<rfloor> - 53)
      in sgn x * (real_of_int (roundHalfEven (n / u)) * u / scale64))"

subsection \<open>Federal income tax in binary64\<close>

text \<open>
  \<open>calculateIncomeTax\<close> once more, now with the result of every subtraction, addition and
  multiplication rounded. \<open>Math.min\<close>, \<open>Math.max\<close> and the comparisons are exact on
  doubles. The integer literals of the tables are doubles as they stand; a rate literal
  such as \<open>0.12\<close> denotes the double nearest to it. The arguments stand for doubles.
\<close>

definition bracketSize64 :: "TaxBracket \<Rightarrow> bound" where
  "bracketSize64 bracket =
     (case bracket_max bracket of
        Finite m \<Rightarrow> Finite (round64 (round64 (m - bracket_min bracket) + 1))
      | Infinity \<Rightarrow> Infinity)"

fun bracketLoop64 ::
  "TaxBracket list \<Rightarrow> real \<Rightarrow> real \<Rightarrow> BracketDetail list \<Rightarrow> real \<times> BracketDetail list" where
  "bracketLoop64 [] remainingIncome totalTax details = (totalTax, details)"
| "bracketLoop64 (bracket # brackets) remainingIncome totalTax details =
     (if remainingIncome \<le> 0 then (totalTax, details)
      else
        let taxableAtRate' = Math_min remainingIncome (bracketSize64 bracket);
            taxAtRate' = round64 (taxableAtRate' * round64 (bracket_rate bracket));
            details' =
              (if taxableAtRate' > 0
               then details @ [\<lparr> rate = round64 (bracket_rate bracket),
                                  taxableAtRate = taxableAtRate',
                                  taxAtRate = taxAtRate' \<rparr>]
               else details)
        in bracketLoop64 brackets (round64 (remainingIncome - taxableAtRate'))
             (round64 (totalTax + taxAtRate')) details')"

definition calculateIncomeTax64 :: "real \<Rightarrow> real \<Rightarrow> FilingStatus \<Rightarrow> IncomeTaxBreakdown" where
  "calculateIncomeTax64 netProfit seTaxDeduction' fs =
     (let standardDeduction' = standardDeduction TAX_CONSTANTS_2025 fs;
          brackets = TAX_BRACKETS_2025 fs;
          agi = round64 (netProfit - seTaxDeduction');
          taxableIncome' = max 0 (round64 (agi - standardDeduction'));
          (totalTax, details) = bracketLoop64 brackets taxableIncome' 0 []
      in \<lparr> taxableIncome = taxableIncome',
           federalIncomeTax = totalTax,
           bracketDetails = details \<rparr>)"

subsection \<open>The main calculation\<close>

definition calculateTaxes :: "TaxInputs \<Rightarrow> TaxCalculationResult" where
  "calculateTaxes inputs =
     (let selfEmploymentTax' =
            calculateSelfEmploymentTax (currentYearProfit inputs) (filingStatus inputs);
          incomeTax' =
            calculateIncomeTax (currentYearProfit inputs) (seTaxDeduction selfEmploymentTax')
              (filingStatus inputs);
          currentYearTotalTax' = totalSETax selfEmploymentTax' + federalIncomeTax incomeTax';
          currentYearAvoidanceMinimum' =
            currentYearTotalTax' * currentYearAvoidanceMultiplier TAX_CONSTANTS_2025;
          sh = calculateSafeHarbor (priorYearTax inputs) (priorYearAGI inputs);
          safeHarborMinimum' = sh_safeHarborMinimum sh;
          safeHarborMultiplier' = sh_multiplier sh;
          requiredAnnualPayment' = min safeHarborMinimum' currentYearAvoidanceMinimum';
          quarterlyPayment' = requiredAnnualPayment' / 4;
          isCurrentYearLower' = (currentYearAvoidanceMinimum' < safeHarborMinimum');
          savings' = \<bar>safeHarborMinimum' - currentYearAvoidanceMinimum'\<bar>
      in \<lparr> selfEmploymentTax = selfEmploymentTax',
           incomeTax = incomeTax',
           currentYearTotalTax = currentYearTotalTax',
           currentYearAvoidanceMinimum = currentYearAvoidanceMinimum',
           safeHarborMultiplier = safeHarborMultiplier',
           safeHarborMinimum = safeHarborMinimum',
           requiredAnnualPayment = requiredAnnualPayment',
           quarterlyPayment = quarterlyPayment',
           isCurrentYearLower = isCurrentYearLower',
           savings = savings' \<rparr>)"

subsection \<open>Currency parsing\<close>

text \<open>
  \<open>value.replace(/[^0-9.-]/g, '')\<close> keeps the ten digits, the point and the minus sign
  and drops every other character.
\<close>

definition isDigit :: "char \<Rightarrow> bool" where
  "isDigit c = (c \<in> set ''0123456789'')"

definition keptChar :: "char \<Rightarrow> bool" where
  "keptChar c = (isDigit c \<or> c = CHR ''.'' \<or> c = CHR ''-'')"

definition cleaned :: "string \<Rightarrow> string" where
  "cleaned v = filter keptChar v"

definition digitValue :: "char \<Rightarrow> nat" where
  "digitValue c = of_char c - 48"

definition digitsValue :: "string \<Rightarrow> nat" where
  "digitsValue ds = foldl (\<lambda>a c. 10 * a + digitValue c) 0 ds"

text \<open>
  The JavaScript built-in \<open>parseFloat\<close> on a string of digits, points and minus signs
  (the only strings \<open>parseCurrency\<close> hands to it): it reads the longest prefix that is
  a decimal literal, an optional \<open>-\<close> followed by \<open>digits\<close>, \<open>digits.\<close>,
  \<open>digits.digits\<close> or \<open>.digits\<close>, and ignores whatever follows. \<open>None\<close> is \<open>NaN\<close>,
  returned when no prefix is such a literal.
\<close>

definition parseUnsigned :: "string \<Rightarrow> real option" where
  "parseUnsigned s =
     (let ip = takeWhile isDigit s; r = dropWhile isDigit s
      in if ip \<noteq> [] then
           (case r of
              c # r' \<Rightarrow>
                if c = CHR ''.'' then
                  (let fp = takeWhile isDigit r'
                   in Some (real (digitsValue ip) + real (digitsValue fp) / 10 ^ length fp))
                else Some (real (digitsValue ip))
            | [] \<Rightarrow> Some (real (digitsValue ip)))
         else
           (case r of
              c # r' \<Rightarrow>
                if c = CHR ''.'' then
                  (let fp = takeWhile isDigit r'
                   in if fp \<noteq> [] then Some (real (digitsValue fp) / 10 ^ length fp) else None)
                else None
            | [] \<Rightarrow> None))"

definition parseFloat :: "string \<Rightarrow> real option" where
  "parseFloat s =
     (case s of
        c # r \<Rightarrow> if c = CHR ''-'' then map_option uminus (parseUnsigned r) else parseUnsigned s
      | [] \<Rightarrow> None)"

definition parseCurrency :: "string \<Rightarrow> real" where
  "parseCurrency v =
     (let parsed = parseFloat (cleaned v)
      in case parsed of None \<Rightarrow> 0 | Some x \<Rightarrow> x)"

subsection \<open>Auxiliary notions for the proofs\<close>

text \<open>A bracket of positive size: \<open>max - min + 1 > 0\<close>, or unbounded.\<close>

definition sizePositive :: "TaxBracket \<Rightarrow> bool" where
  "sizePositive bracket = (case bracketSize bracket of Finite c \<Rightarrow> 0 < c | Infinity \<Rightarrow> True)"

text \<open>The entry one iteration of the loop pushes when the remaining income is \<open>r\<close>.\<close>

definition pushDetail :: "TaxBracket \<Rightarrow> real \<Rightarrow> BracketDetail" where
  "pushDetail bracket r =
     \<lparr> rate = bracket_rate bracket,
       taxableAtRate = Math_min r (bracketSize bracket),
       taxAtRate = Math_min r (bracketSize bracket) * bracket_rate bracket \<rparr>"

text \<open>The exponent of the spacing \<open>round64\<close> uses, in units of the smallest double.\<close>

definition ulpExponent :: "real \<Rightarrow> nat" where
  "ulpExponent x = nat (bitlen \<lfloor>\<bar>x\<bar> * scale64\<rfloor> - 53)"

text \<open>A bracket whose binary64 size is a positive integer, or unbounded.\<close>

definition sizeExact :: "TaxBracket \<Rightarrow> bool" where
  "sizeExact bracket = (case bracketSize64 bracket of Finite c \<Rightarrow> 0 < c \<and> c \<in> \<int> | Infinity \<Rightarrow> True)"

text \<open>The amounts \<open>taxableAtRate\<close> the binary64 loop pushes, without the tax figures.\<close>

fun amounts64 :: "TaxBracket list \<Rightarrow> real \<Rightarrow> real list" where
  "amounts64 [] r = []"
| "amounts64 (b # bs) r =
     (if r \<le> 0 then []
      else (if 0 < Math_min r (bracketSize64 b) then [Math_min r (bracketSize64 b)] else [])
           @ amounts64 bs (round64 (r - Math_min r (bracketSize64 b))))"

section \<open>The bracket walk\<close>

lemma Math_min_le: "Math_min x s \<le> x"
  by (cases s) (simp_all add: Math_min_def)

lemma Math_min_pos: "0 < x \<Longrightarrow> sizePositive b \<Longrightarrow> 0 < Math_min x (bracketSize b)"
  by (cases "bracketSize b") (simp_all add: Math_min_def sizePositive_def)

lemma Math_min_mono: "x \<le> y \<Longrightarrow> Math_min x s \<le> Math_min y s"
  by (cases s) (simp_all add: Math_min_def min_def)

lemma Math_min_rest_mono: "x \<le> y \<Longrightarrow> x - Math_min x s \<le> y - Math_min y s"
  by (cases s) (simp_all add: Math_min_def min_def)

lemma bracketLoop_stop: "r \<le> 0 \<Longrightarrow> bracketLoop bs r t acc = (t, acc)"
  by (cases bs) simp_all

lemma bracketLoop_step:
  "0 < r \<Longrightarrow> sizePositive b \<Longrightarrow>
   bracketLoop (b # bs) r t acc =
     bracketLoop bs (r - Math_min r (bracketSize b))
       (t + Math_min r (bracketSize b) * bracket_rate b) (acc @ [pushDetail b r])"
  by (simp add: Let_def Math_min_pos pushDetail_def)

lemma bracketLoop_details:
  "d \<in> set (snd (bracketLoop bs r t acc)) \<Longrightarrow>
   d \<in> set acc \<or>
   (\<exists>b x. b \<in> set bs \<and> 0 < x \<and>
      d = \<lparr> rate = bracket_rate b, taxableAtRate = x, taxAtRate = x * bracket_rate b \<rparr>)"
proof (induction bs arbitrary: r t acc)
  case Nil
  then show ?case by simp
next
  case (Cons b bs)
  let ?x = "Math_min r (bracketSize b)"
  let ?d = "\<lparr> rate = bracket_rate b, taxableAtRate = ?x, taxAtRate = ?x * bracket_rate b \<rparr>"
  show ?case
  proof (cases "r \<le> 0")
    case True
    with Cons.prems show ?thesis by (simp add: bracketLoop_stop)
  next
    case False
    show ?thesis
    proof (cases "0 < ?x")
      case True
      with False Cons.prems
      have "d \<in> set (snd (bracketLoop bs (r - ?x) (t + ?x * bracket_rate b) (acc @ [?d])))"
        by (simp only: bracketLoop.simps Let_def if_True if_False)
      from Cons.IH [OF this] True show ?thesis by auto
    next
      case nopush: False
      with False Cons.prems
      have "d \<in> set (snd (bracketLoop bs (r - ?x) (t + ?x * bracket_rate b) acc))"
        by (simp only: bracketLoop.simps Let_def if_True if_False)
      from Cons.IH [OF this] show ?thesis by auto
    qed
  qed
qed

lemma bracketLoop_tax_sum:
  "list_all sizePositive bs \<Longrightarrow>
   fst (bracketLoop bs r t acc) + sum_list (map taxAtRate acc)
     = sum_list (map taxAtRate (snd (bracketLoop bs r t acc))) + t"
proof (induction bs arbitrary: r t acc)
  case Nil
  then show ?case by simp
next
  case (Cons b bs)
  show ?case
  proof (cases "r \<le> 0")
    case True
    then show ?thesis by (simp only: bracketLoop_stop fst_conv snd_conv)
  next
    case False
    from Cons.prems have b: "sizePositive b" and bs: "list_all sizePositive bs" by simp_all
    from False have r: "0 < r" by simp
    let ?x = "Math_min r (bracketSize b)"
    let ?acc = "acc @ [pushDetail b r]"
    have "fst (bracketLoop bs (r - ?x) (t + ?x * bracket_rate b) ?acc) + sum_list (map taxAtRate ?acc)
          = sum_list (map taxAtRate (snd (bracketLoop bs (r - ?x) (t + ?x * bracket_rate b) ?acc)))
            + (t + ?x * bracket_rate b)"
      by (rule Cons.IH [OF bs])
    moreover have "sum_list (map taxAtRate ?acc) = sum_list (map taxAtRate acc) + ?x * bracket_rate b"
      by (simp add: pushDetail_def)
    ultimately show ?thesis
      unfolding bracketLoop_step [OF r b] by linarith
  qed
qed

lemma bracketLoop_total_grows:
  "list_all sizePositive bs \<Longrightarrow> list_all (\<lambda>b. 0 \<le> bracket_rate b) bs \<Longrightarrow>
   t \<le> fst (bracketLoop bs r t acc)"
proof (induction bs arbitrary: r t acc)
  case Nil
  then show ?case by simp
next
  case (Cons b bs)
  show ?case
  proof (cases "r \<le> 0")
    case True
    then show ?thesis by (simp only: bracketLoop_stop fst_conv order_refl)
  next
    case False
    from Cons.prems have b: "sizePositive b" and bs: "list_all sizePositive bs"
      and rate: "0 \<le> bracket_rate b" and rates: "list_all (\<lambda>b. 0 \<le> bracket_rate b) bs"
      by simp_all
    from False have r: "0 < r" by simp
    let ?x = "Math_min r (bracketSize b)"
    have "0 < ?x" using r b by (rule Math_min_pos)
    with rate have "0 \<le> ?x * bracket_rate b" by simp
    moreover have "t + ?x * bracket_rate b
        \<le> fst (bracketLoop bs (r - ?x) (t + ?x * bracket_rate b) (acc @ [pushDetail b r]))"
      by (rule Cons.IH [OF bs rates])
    ultimately show ?thesis
      unfolding bracketLoop_step [OF r b] by linarith
  qed
qed

lemma bracketLoop_mono:
  "list_all sizePositive bs \<Longrightarrow> list_all (\<lambda>b. 0 \<le> bracket_rate b) bs \<Longrightarrow>
   a \<le> b \<Longrightarrow> ta \<le> tb \<Longrightarrow>
   fst (bracketLoop bs a ta acca) \<le> fst (bracketLoop bs b tb accb)"
proof (induction bs arbitrary: a b ta tb acca accb)
  case Nil
  then show ?case by simp
next
  case (Cons c bs)
  from Cons.prems have c: "sizePositive c" and valid: "list_all sizePositive bs" "list_all (\<lambda>b. 0 \<le> bracket_rate b) bs"
    and rate: "0 \<le> bracket_rate c"
    by simp_all
  show ?case
  proof (cases "a \<le> 0")
    case True
    have "ta \<le> tb" by (rule Cons.prems)
    also have "tb \<le> fst (bracketLoop (c # bs) b tb accb)"
      using Cons.prems(1,2) by (rule bracketLoop_total_grows)
    finally show ?thesis using True by (simp only: bracketLoop_stop fst_conv)
  next
    case False
    then have apos: "0 < a" by simp
    with Cons.prems have bpos: "0 < b" by simp
    have m: "Math_min a (bracketSize c) \<le> Math_min b (bracketSize c)"
      using Cons.prems(3) by (rule Math_min_mono)
    have r: "a - Math_min a (bracketSize c) \<le> b - Math_min b (bracketSize c)"
      using Cons.prems(3) by (rule Math_min_rest_mono)
    have t: "ta + Math_min a (bracketSize c) * bracket_rate c
               \<le> tb + Math_min b (bracketSize c) * bracket_rate c"
      using m rate Cons.prems(4) by (simp add: add_mono mult_right_mono)
    show ?thesis
      unfolding bracketLoop_step [OF apos c] bracketLoop_step [OF bpos c]
      by (rule Cons.IH [OF valid r t])
  qed
qed


lemma brackets_sizePositive: "list_all sizePositive (TAX_BRACKETS_2025 fs)"
  by (cases fs) (simp_all add: sizePositive_def bracketSize_def)

lemma brackets_rates_nonneg: "list_all (\<lambda>b. 0 \<le> bracket_rate b) (TAX_BRACKETS_2025 fs)"
  by (cases fs) simp_all

lemma brackets_nonempty: "TAX_BRACKETS_2025 fs \<noteq> []"
  by (cases fs) simp_all

lemma taxableIncome_calculateIncomeTax:
  "taxableIncome (calculateIncomeTax np d fs) = max 0 (np - d - standardDeduction TAX_CONSTANTS_2025 fs)"
  by (simp add: calculateIncomeTax_def Let_def split: prod.splits)

lemma federalIncomeTax_calculateIncomeTax:
  "federalIncomeTax (calculateIncomeTax np d fs)
     = fst (bracketLoop (TAX_BRACKETS_2025 fs) (taxableIncome (calculateIncomeTax np d fs)) 0 [])"
  by (simp add: calculateIncomeTax_def Let_def split: prod.splits)

lemma bracketDetails_calculateIncomeTax:
  "bracketDetails (calculateIncomeTax np d fs)
     = snd (bracketLoop (TAX_BRACKETS_2025 fs) (taxableIncome (calculateIncomeTax np d fs)) 0 [])"
  by (simp add: calculateIncomeTax_def Let_def split: prod.splits)

lemmas eval_defs =
  calculateTaxes_def calculateIncomeTax_def calculateSelfEmploymentTax_def calculateSafeHarbor_def
  TAX_CONSTANTS_2025_def bracketSize_def Math_min_def Let_def

section \<open>Binary64 rounding\<close>

lemma roundHalfEven_of_int: "roundHalfEven (real_of_int j) = j"
  by (simp add: roundHalfEven_def)

lemma roundHalfEven_nonneg: "0 \<le> r \<Longrightarrow> 0 \<le> roundHalfEven r"
  by (simp add: roundHalfEven_def Let_def)

lemma roundHalfEven_le: "r < real_of_int m \<Longrightarrow> roundHalfEven r \<le> m"
proof -
  assume "r < real_of_int m"
  then have "\<lfloor>r\<rfloor> < m" by (simp add: floor_less_iff)
  then show ?thesis by (simp add: roundHalfEven_def Let_def)
qed

lemma scale64_pos: "0 < scale64"
  by (simp add: scale64_def)

lemma bitlen_le_nat: "m < 2 ^ p \<Longrightarrow> bitlen m \<le> int p"
  using bitlen_le_iff_power [of m "int p"] by simp

lemma bitlen_less_power: "bitlen m \<le> int p \<Longrightarrow> m < 2 ^ p"
  using bitlen_le_iff_power [of m "int p"] by simp

lemma bitlen_ge_nat: "2 ^ p \<le> m \<Longrightarrow> int (Suc p) \<le> bitlen m"
proof -
  assume "2 ^ p \<le> m"
  moreover have "nat (int (Suc p)) - 1 = p" by simp
  ultimately have "2 ^ (nat (int (Suc p)) - 1) \<le> m" by (simp only:)
  then show ?thesis by (simp only: bitlen_ge_iff_power) simp
qed

lemma floor_less_power: "(r::real) < 2 ^ p \<Longrightarrow> \<lfloor>r\<rfloor> < 2 ^ p"
proof -
  assume "r < 2 ^ p"
  then have "r < real_of_int (2 ^ p)" by simp
  then show ?thesis by (simp only: floor_less_iff)
qed

lemma less_power_floor: "\<lfloor>r\<rfloor> < 2 ^ p \<Longrightarrow> (r::real) < 2 ^ p"
proof -
  assume "\<lfloor>r\<rfloor> < 2 ^ p"
  then have "r < real_of_int (2 ^ p)" by (simp only: floor_less_iff)
  then show ?thesis by simp
qed

lemma power_le_floor: "2 ^ p \<le> (r::real) \<Longrightarrow> 2 ^ p \<le> \<lfloor>r\<rfloor>"
proof -
  assume "2 ^ p \<le> r"
  then have "real_of_int (2 ^ p) \<le> r" by simp
  then show ?thesis by (simp only: le_floor_iff)
qed

lemma round64_ulpExponent:
  "round64 x = sgn x * (real_of_int (roundHalfEven (\<bar>x\<bar> * scale64 / 2 ^ ulpExponent x))
                 * 2 ^ ulpExponent x / scale64)"
  by (simp add: round64_def ulpExponent_def Let_def)

lemma ulpExponent_le:
  assumes "\<bar>x\<bar> * scale64 < 2 ^ (53 + a)"
  shows "ulpExponent x \<le> a"
proof -
  from assms have "\<lfloor>\<bar>x\<bar> * scale64\<rfloor> < 2 ^ (53 + a)" by (rule floor_less_power)
  then have "bitlen \<lfloor>\<bar>x\<bar> * scale64\<rfloor> \<le> int (53 + a)" by (rule bitlen_le_nat)
  then show ?thesis by (simp add: ulpExponent_def)
qed

lemma scaled_less_ulp: "\<bar>x\<bar> * scale64 < 2 ^ (53 + ulpExponent x)"
proof -
  have "bitlen \<lfloor>\<bar>x\<bar> * scale64\<rfloor> \<le> int (53 + ulpExponent x)"
    by (simp add: ulpExponent_def)
  then have "\<lfloor>\<bar>x\<bar> * scale64\<rfloor> < 2 ^ (53 + ulpExponent x)" by (rule bitlen_less_power)
  then show ?thesis by (rule less_power_floor)
qed

lemma round64_fixed:
  assumes "0 \<le> j" and "j < 2 ^ 53" and "\<bar>x\<bar> * scale64 = real_of_int j * 2 ^ a"
  shows "round64 x = x"
proof -
  define e where "e = ulpExponent x"
  from assms(2) have "real_of_int j < real_of_int (2 ^ 53)" by (simp only: of_int_less_iff)
  then have "real_of_int j < 2 ^ 53" by simp
  then have "real_of_int j * 2 ^ a < 2 ^ 53 * 2 ^ a" by simp
  then have "\<bar>x\<bar> * scale64 < 2 ^ (53 + a)" by (simp only: assms(3) power_add)
  then have "e \<le> a" unfolding e_def by (rule ulpExponent_le)
  then obtain b where a: "a = e + b" using le_Suc_ex by blast
  have "\<bar>x\<bar> * scale64 / 2 ^ e = real_of_int (j * 2 ^ b)"
    unfolding assms(3) a power_add by simp
  then have "real_of_int (roundHalfEven (\<bar>x\<bar> * scale64 / 2 ^ e)) * 2 ^ e
               = real_of_int j * 2 ^ b * 2 ^ e"
    by (simp only: roundHalfEven_of_int) simp
  also have "\<dots> = \<bar>x\<bar> * scale64"
    unfolding assms(3) a power_add by simp
  finally have "round64 x = sgn x * (\<bar>x\<bar> * scale64 / scale64)"
    unfolding round64_ulpExponent e_def [symmetric] by simp
  also have "\<dots> = x" using scale64_pos by (simp add: sgn_mult_abs)
  finally show ?thesis .
qed

lemma round64_form:
  "\<exists>j. 0 \<le> j \<and> j \<le> 2 ^ 53 \<and> \<bar>round64 x\<bar> * scale64 = real_of_int j * 2 ^ ulpExponent x"
proof -
  define e where "e = ulpExponent x"
  define r where "r = \<bar>x\<bar> * scale64 / 2 ^ e"
  define j where "j = roundHalfEven r"
  have "0 \<le> r" unfolding r_def using scale64_pos by simp
  then have nonneg: "0 \<le> j" unfolding j_def by (rule roundHalfEven_nonneg)
  have "\<bar>x\<bar> * scale64 < 2 ^ 53 * 2 ^ e"
    using scaled_less_ulp [of x] by (simp only: e_def power_add)
  then have "r < 2 ^ 53" unfolding r_def by (simp add: divide_less_eq)
  then have "r < real_of_int (2 ^ 53)" by simp
  then have le: "j \<le> 2 ^ 53" unfolding j_def by (rule roundHalfEven_le)
  have form: "round64 x = sgn x * (real_of_int j * 2 ^ e / scale64)"
    unfolding j_def r_def e_def by (rule round64_ulpExponent)
  have "\<bar>round64 x\<bar> * scale64 = real_of_int j * 2 ^ e"
  proof (cases "x = 0")
    case True
    then have "r = 0" by (simp add: r_def)
    then have "j = 0" by (simp add: j_def roundHalfEven_def)
    with True form show ?thesis by simp
  next
    case False
    then have "\<bar>sgn x\<bar> = 1" by (simp add: abs_sgn_eq)
    then have "\<bar>round64 x\<bar> = real_of_int j * 2 ^ e / scale64"
      unfolding form using nonneg scale64_pos by (simp add: abs_mult)
    then show ?thesis using scale64_pos by simp
  qed
  with nonneg le show ?thesis unfolding e_def by blast
qed

lemma round64_idem: "round64 (round64 x) = round64 x"
proof -
  obtain j where j: "0 \<le> j" "j \<le> 2 ^ 53"
    and f: "\<bar>round64 x\<bar> * scale64 = real_of_int j * 2 ^ ulpExponent x"
    using round64_form [of x] by blast
  show ?thesis
  proof (cases "j < 2 ^ 53")
    case True
    from j(1) True f show ?thesis by (rule round64_fixed)
  next
    case False
    with j have "j = 2 ^ 53" by simp
    then have "\<bar>round64 x\<bar> * scale64 = real_of_int (2 ^ 52) * 2 ^ Suc (ulpExponent x)"
      using f by simp
    moreover have "(0::int) \<le> 2 ^ 52" "(2::int) ^ 52 < 2 ^ 53" by simp_all
    ultimately show ?thesis using round64_fixed by blast
  qed
qed

lemma round64_zero: "round64 0 = 0"
  by (simp add: round64_def)

lemma round64_of_int:
  assumes "\<bar>c\<bar> < 2 ^ 53"
  shows "round64 (real_of_int c) = real_of_int c"
proof (rule round64_fixed)
  show "0 \<le> \<bar>c\<bar>" by simp
  show "\<bar>c\<bar> < 2 ^ 53" by (rule assms)
  show "\<bar>real_of_int c\<bar> * scale64 = real_of_int \<bar>c\<bar> * 2 ^ 1074" by (simp add: scale64_def)
qed

lemma round64_numeral:
  "(numeral w :: int) < 2 ^ 53 \<Longrightarrow> round64 (numeral w) = numeral w"
  using round64_of_int [of "numeral w"] by simp

lemma round64_sub_exact:
  assumes fixed: "round64 x = x" and "0 \<le> x" and small: "x < 2 ^ 53"
    and "0 < c" and "real_of_int c \<le> x"
  shows "round64 (x - real_of_int c) = x - real_of_int c"
proof -
  define a where "a = ulpExponent x"
  obtain j where j: "0 \<le> j" "j \<le> 2 ^ 53"
    and f: "\<bar>round64 x\<bar> * scale64 = real_of_int j * 2 ^ a"
    using round64_form [of x] unfolding a_def by blast
  from f fixed \<open>0 \<le> x\<close> have xj: "x * scale64 = real_of_int j * 2 ^ a" by simp
  have "\<bar>x\<bar> * scale64 < 2 ^ 53 * scale64"
    using small \<open>0 \<le> x\<close> scale64_pos by simp
  then have "\<bar>x\<bar> * scale64 < 2 ^ (53 + 1074)" by (simp only: power_add scale64_def)
  then have "a \<le> 1074" unfolding a_def by (rule ulpExponent_le)
  then obtain b where b: "1074 = a + b" using le_Suc_ex by blast
  have scale: "scale64 = 2 ^ a * 2 ^ b" by (simp only: scale64_def b power_add)
  define j' where "j' = j - c * 2 ^ b"
  have eq: "(x - real_of_int c) * scale64 = real_of_int j' * 2 ^ a"
  proof -
    have "(x - real_of_int c) * scale64 = x * scale64 - real_of_int c * scale64"
      by (simp add: algebra_simps)
    also have "\<dots> = real_of_int j * 2 ^ a - real_of_int c * (2 ^ a * 2 ^ b)"
      by (simp only: xj flip: scale)
    also have "\<dots> = real_of_int j' * 2 ^ a"
      by (simp add: j'_def algebra_simps)
    finally show ?thesis .
  qed
  have pos: "0 \<le> (x - real_of_int c) * scale64" using assms(5) scale64_pos by simp
  have nonneg: "0 \<le> j'"
  proof (rule ccontr)
    assume "\<not> 0 \<le> j'"
    then have "real_of_int j' < 0" by simp
    then have "real_of_int j' * 2 ^ a < 0" by (simp add: mult_neg_pos)
    with pos eq show False by simp
  qed
  have "0 < c * 2 ^ b" using \<open>0 < c\<close> by simp
  then have less: "j' < 2 ^ 53" using j(2) unfolding j'_def by linarith
  have "\<bar>x - real_of_int c\<bar> * scale64 = real_of_int j' * 2 ^ a"
    using eq assms(5) by simp
  with nonneg less show ?thesis by (rule round64_fixed)
qed

lemma ulpExponent_eq:
  assumes "2 ^ (52 + d) \<le> \<bar>x\<bar> * scale64" and "\<bar>x\<bar> * scale64 < 2 ^ (53 + d)"
  shows "ulpExponent x = d"
proof -
  let ?n = "\<bar>x\<bar> * scale64"
  from assms(1) have "2 ^ (52 + d) \<le> \<lfloor>?n\<rfloor>" by (rule power_le_floor)
  then have ge: "int (Suc (52 + d)) \<le> bitlen \<lfloor>?n\<rfloor>" by (rule bitlen_ge_nat)
  from assms(2) have "\<lfloor>?n\<rfloor> < 2 ^ (53 + d)" by (rule floor_less_power)
  then have "bitlen \<lfloor>?n\<rfloor> \<le> int (53 + d)" by (rule bitlen_le_nat)
  with ge have "bitlen \<lfloor>?n\<rfloor> = int d + 53" by simp
  then show ?thesis by (simp add: ulpExponent_def)
qed

lemma round64_ge_one:
  assumes "2 ^ e \<le> \<bar>x\<bar>" and "\<bar>x\<bar> < 2 * 2 ^ e"
  shows "round64 x = sgn x * (real_of_int (roundHalfEven (\<bar>x\<bar> * 2 ^ 52 / 2 ^ e)) * 2 ^ e / 2 ^ 52)"
proof -
  define A :: real where "A = 2 ^ 1022"
  have A: "0 < A" by (simp add: A_def)
  have s: "scale64 = A * 2 ^ 52" by (simp add: scale64_def A_def)
  have "2 ^ e * (A * 2 ^ 52) \<le> \<bar>x\<bar> * (A * 2 ^ 52)" using assms(1) A by simp
  then have lo: "2 ^ (52 + (e + 1022)) \<le> \<bar>x\<bar> * scale64"
    by (simp only: s power_add A_def) (simp only: mult_ac)
  have "\<bar>x\<bar> * (A * 2 ^ 52) < 2 * 2 ^ e * (A * 2 ^ 52)" using assms(2) A by simp
  then have hi: "\<bar>x\<bar> * scale64 < 2 ^ (53 + (e + 1022))"
    by (simp only: s power_add A_def power_Suc [symmetric, of 2 52] eval_nat_numeral)
       (simp add: mult_ac)
  have u: "2 ^ ulpExponent x = 2 ^ e * A"
    by (simp only: ulpExponent_eq [OF lo hi] power_add A_def)
  have "\<bar>x\<bar> * scale64 / 2 ^ ulpExponent x = \<bar>x\<bar> * 2 ^ 52 / 2 ^ e"
    unfolding u s using A by simp
  moreover have "y * 2 ^ ulpExponent x / scale64 = y * 2 ^ e / 2 ^ 52" for y :: real
    unfolding u s using A by simp
  ultimately show ?thesis
    by (simp only: round64_ulpExponent)
qed

lemma round64_lt_one:
  assumes "1 \<le> \<bar>x\<bar> * 2 ^ e" and "\<bar>x\<bar> * 2 ^ e < 2" and "e \<le> 1022"
  shows "round64 x = sgn x * (real_of_int (roundHalfEven (\<bar>x\<bar> * 2 ^ (52 + e))) / 2 ^ (52 + e))"
proof -
  from assms(3) obtain d where d: "1022 = e + d" using le_Suc_ex by blast
  define D :: real where "D = 2 ^ d"
  define E :: real where "E = 2 ^ e"
  define B :: real where "B = 2 ^ 52"
  have pos: "0 < D" "0 < E" "0 < B" by (simp_all add: D_def E_def B_def)
  have "(2::real) ^ 1074 = 2 ^ (e + d + 52)" by (simp only: d [symmetric]) simp
  then have s: "scale64 = E * D * B" by (simp only: scale64_def power_add D_def E_def B_def)
  have "1 * (D * B) \<le> \<bar>x\<bar> * E * (D * B)"
    using assms(1) pos unfolding E_def by (intro mult_right_mono) simp_all
  then have lo: "2 ^ (52 + d) \<le> \<bar>x\<bar> * scale64"
    unfolding s power_add D_def [symmetric] B_def [symmetric] by (simp add: mult_ac)
  have "\<bar>x\<bar> * E * (D * B) < 2 * (D * B)"
    using assms(2) pos unfolding E_def by (intro mult_strict_right_mono) simp_all
  moreover have "(2::real) ^ (53 + d) = 2 * (D * B)"
    by (simp add: power_add D_def B_def)
  ultimately have hi: "\<bar>x\<bar> * scale64 < 2 ^ (53 + d)"
    unfolding s by (simp add: mult_ac)
  have u: "2 ^ ulpExponent x = D"
    by (simp only: ulpExponent_eq [OF lo hi] D_def)
  have "\<bar>x\<bar> * scale64 / 2 ^ ulpExponent x = \<bar>x\<bar> * 2 ^ (52 + e)"
    unfolding u s power_add E_def [symmetric] B_def [symmetric] using pos by simp
  moreover have "y * 2 ^ ulpExponent x / scale64 = y / 2 ^ (52 + e)" for y :: real
    unfolding u s power_add E_def [symmetric] B_def [symmetric] using pos by simp
  ultimately show ?thesis
    by (simp only: round64_ulpExponent)
qed

text \<open>Two values as the source computes them: the double of \<open>0.1\<close>, and a tie above 2 to
  the power 53, where the doubles are the even integers.\<close>

lemma round64_one_tenth: "round64 0.10 = 3602879701896397 / 2 ^ 55"
  by (simp add: round64_lt_one [where e = 4] roundHalfEven_def)

lemma round64_tie_to_even: "round64 9999999999880899 = 9999999999880900"
  by (simp add: round64_ge_one [where e = 53] roundHalfEven_def)

section \<open>The bracket walk in binary64\<close>

lemma Math_min_pos64: "0 < x \<Longrightarrow> sizeExact b \<Longrightarrow> 0 < Math_min x (bracketSize64 b)"
  by (cases "bracketSize64 b") (simp_all add: Math_min_def sizeExact_def)

lemma bracketLoop64_stop: "r \<le> 0 \<Longrightarrow> bracketLoop64 bs r t acc = (t, acc)"
  by (cases bs) simp_all

lemma bracketLoop64_amounts:
  "map taxableAtRate (snd (bracketLoop64 bs r t acc)) = map taxableAtRate acc @ amounts64 bs r"
proof (induction bs arbitrary: r t acc)
  case Nil
  then show ?case by simp
next
  case (Cons b bs)
  show ?case
  proof (cases "r \<le> 0")
    case True
    then show ?thesis by simp
  next
    case False
    show ?thesis
    proof (cases "0 < Math_min r (bracketSize64 b)")
      case True
      with False show ?thesis
        by (simp only: bracketLoop64.simps amounts64.simps Let_def if_True if_False Cons.IH)
           simp
    next
      case nopush: False
      with False show ?thesis
        by (simp only: bracketLoop64.simps amounts64.simps Let_def if_True if_False Cons.IH)
           simp
    qed
  qed
qed

lemma amounts64_positive: "x \<in> set (amounts64 bs r) \<Longrightarrow> 0 < x"
proof (induction bs arbitrary: r)
  case Nil
  then show ?case by simp
next
  case (Cons b bs)
  then show ?case by (auto split: if_splits)
qed

lemma bracketLoop64_rates_sorted:
  "sorted_wrt (<) (map rate acc @ map (\<lambda>b. round64 (bracket_rate b)) bs) \<Longrightarrow>
   sorted_wrt (<) (map rate (snd (bracketLoop64 bs r t acc)))"
proof (induction bs arbitrary: r t acc)
  case Nil
  then show ?case by simp
next
  case (Cons b bs)
  from Cons.prems have keep: "sorted_wrt (<) (map rate acc)"
    and skip: "sorted_wrt (<) (map rate acc @ map (\<lambda>b. round64 (bracket_rate b)) bs)"
    by (auto simp: sorted_wrt_append)
  have push: "sorted_wrt (<) (map rate (acc @ [\<lparr>rate = round64 (bracket_rate b),
      taxableAtRate = x, taxAtRate = y\<rparr>]) @ map (\<lambda>b. round64 (bracket_rate b)) bs)" for x y
    using Cons.prems by simp
  show ?case
  proof (cases "r \<le> 0")
    case True
    with keep show ?thesis by (simp only: bracketLoop64_stop snd_conv)
  next
    case False
    show ?thesis
    proof (cases "0 < Math_min r (bracketSize64 b)")
      case True
      with False show ?thesis
        using Cons.IH [OF push] by (simp only: bracketLoop64.simps Let_def if_True if_False)
    next
      case nopush: False
      with False show ?thesis
        using Cons.IH [OF skip] by (simp only: bracketLoop64.simps Let_def if_True if_False)
    qed
  qed
qed

lemma remaining_exact:
  assumes "round64 r = r" and "0 < r" and "r < 2 ^ 53" and "sizeExact b"
  shows "round64 (r - Math_min r (bracketSize64 b)) = r - Math_min r (bracketSize64 b)"
proof (cases "bracketSize64 b")
  case Infinity
  then show ?thesis by (simp add: Math_min_def round64_zero)
next
  case (Finite c)
  with assms(4) have c: "0 < c" "c \<in> \<int>" by (simp_all add: sizeExact_def)
  show ?thesis
  proof (cases "r \<le> c")
    case True
    with Finite show ?thesis by (simp add: Math_min_def round64_zero)
  next
    case False
    from c(2) obtain ci where ci: "c = real_of_int ci" by (rule Ints_cases)
    with c(1) have "0 < ci" by simp
    moreover from False ci have "real_of_int ci \<le> r" by simp
    ultimately have "round64 (r - real_of_int ci) = r - real_of_int ci"
      using assms(1-3) by (intro round64_sub_exact) simp_all
    with False Finite ci show ?thesis by (simp add: Math_min_def)
  qed
qed

lemma amounts64_sum:
  "list_all sizeExact bs \<Longrightarrow> bs \<noteq> [] \<Longrightarrow> bracketSize64 (last bs) = Infinity \<Longrightarrow>
   0 \<le> r \<Longrightarrow> r < 2 ^ 53 \<Longrightarrow> round64 r = r \<Longrightarrow>
   sum_list (amounts64 bs r) = r"
proof (induction bs arbitrary: r)
  case Nil
  then show ?case by simp
next
  case (Cons b bs)
  show ?case
  proof (cases "r \<le> 0")
    case True
    with Cons.prems show ?thesis by simp
  next
    case False
    from Cons.prems have b: "sizeExact b" and bs: "list_all sizeExact bs" by simp_all
    from False have r: "0 < r" by simp
    define x where "x = Math_min r (bracketSize64 b)"
    have xpos: "0 < x" unfolding x_def using r b by (rule Math_min_pos64)
    have xle: "x \<le> r" unfolding x_def by (rule Math_min_le)
    have exact: "round64 (r - x) = r - x"
      unfolding x_def using Cons.prems(6) r Cons.prems(5) b by (rule remaining_exact)
    have unfold: "amounts64 (b # bs) r = x # amounts64 bs (r - x)"
      using False xpos exact by (simp add: x_def)
    show ?thesis
    proof (cases "bs = []")
      case True
      with Cons.prems have "bracketSize64 b = Infinity" by simp
      then have "x = r" by (simp add: x_def Math_min_def)
      with True unfold show ?thesis by simp
    next
      case nonempty: False
      from Cons.prems nonempty have inf: "bracketSize64 (last bs) = Infinity" by simp
      have "0 \<le> r - x" using xle by simp
      moreover have "r - x < 2 ^ 53" using xpos Cons.prems(5) by linarith
      moreover have "round64 (r - x) = r - x" by (rule exact)
      ultimately have "sum_list (amounts64 bs (r - x)) = r - x"
        by (rule Cons.IH [OF bs nonempty inf])
      with unfold show ?thesis by simp
    qed
  qed
qed


lemma brackets_sizeExact: "list_all sizeExact (TAX_BRACKETS_2025 fs)"
  by (cases fs) (simp_all add: sizeExact_def bracketSize64_def round64_numeral)

lemma brackets_last_unbounded64: "bracketSize64 (last (TAX_BRACKETS_2025 fs)) = Infinity"
  by (cases fs) (simp_all add: bracketSize64_def)

lemma brackets_rates_sorted64:
  "sorted_wrt (<) (map (\<lambda>b. round64 (bracket_rate b)) (TAX_BRACKETS_2025 fs))"
  by (cases fs)
     (simp_all add: round64_lt_one [where e = 4] round64_lt_one [where e = 3]
        round64_lt_one [where e = 2] roundHalfEven_def)

lemma taxableIncome_calculateIncomeTax64:
  "taxableIncome (calculateIncomeTax64 np d fs)
     = max 0 (round64 (round64 (np - d) - standardDeduction TAX_CONSTANTS_2025 fs))"
  by (simp add: calculateIncomeTax64_def Let_def split: prod.splits)

lemma bracketDetails_calculateIncomeTax64:
  "bracketDetails (calculateIncomeTax64 np d fs)
     = snd (bracketLoop64 (TAX_BRACKETS_2025 fs) (taxableIncome (calculateIncomeTax64 np d fs)) 0 [])"
  by (simp add: calculateIncomeTax64_def Let_def split: prod.splits)

lemma taxableAtRate_calculateIncomeTax64:
  "map taxableAtRate (bracketDetails (calculateIncomeTax64 np d fs))
     = amounts64 (TAX_BRACKETS_2025 fs) (taxableIncome (calculateIncomeTax64 np d fs))"
  by (simp add: bracketDetails_calculateIncomeTax64 bracketLoop64_amounts)

lemma taxableIncome64_nonneg: "0 \<le> taxableIncome (calculateIncomeTax64 np d fs)"
  by (simp add: taxableIncome_calculateIncomeTax64)

lemma taxableIncome64_double:
  "round64 (taxableIncome (calculateIncomeTax64 np d fs)) = taxableIncome (calculateIncomeTax64 np d fs)"
  by (simp add: taxableIncome_calculateIncomeTax64 max_def round64_zero round64_idem)

section \<open>Currency parsing\<close>

lemma keptChar_iff: "keptChar c \<longleftrightarrow> c \<in> set ''0123456789.-''"
  by (auto simp: keptChar_def isDigit_def)

lemma parseUnsigned_no_digit:
  assumes "\<forall>c \<in> set s. \<not> isDigit c"
  shows "parseUnsigned s = None"
proof (cases s)
  case Nil
  then show ?thesis by (simp add: parseUnsigned_def)
next
  case (Cons c r)
  with assms have c: "\<not> isDigit c" and r: "\<forall>c \<in> set r. \<not> isDigit c" by simp_all
  from r have "takeWhile isDigit r = []" by (cases r) simp_all
  with c Cons show ?thesis by (simp add: parseUnsigned_def)
qed

lemma parseFloat_no_digit:
  assumes "\<forall>c \<in> set s. \<not> isDigit c"
  shows "parseFloat s = None"
proof (cases s)
  case Nil
  then show ?thesis by (simp add: parseFloat_def)
next
  case (Cons c r)
  with assms have "\<forall>c \<in> set r. \<not> isDigit c" by simp
  then have "parseUnsigned r = None" by (rule parseUnsigned_no_digit)
  moreover from assms have "parseUnsigned s = None" by (rule parseUnsigned_no_digit)
  ultimately show ?thesis using Cons by (simp add: parseFloat_def)
qed

lemmas parse_defs =
  parseCurrency_def parseFloat_def parseUnsigned_def cleaned_def keptChar_def isDigit_def
  digitsValue_def digitValue_def

section \<open>Properties\<close>

text \<open>
  C1. For every input record, the result of \<open>calculateTaxes\<close> satisfies: its SE and
  income tax breakdowns are those of \<open>calculateSelfEmploymentTax\<close> and
  \<open>calculateIncomeTax\<close> on the current-year profit; the current-year
  total tax is the total SE tax plus the federal income tax; the current-year avoidance
  minimum is 0.9 times that total; the Safe Harbor minimum is the one \<open>calculateSafeHarbor\<close>
  returns; the required annual payment is the lesser of the Safe Harbor minimum and the
  avoidance minimum; the quarterly payment is a quarter of it, so four quarterly payments
  make the annual one; \<open>isCurrentYearLower\<close> holds exactly when the avoidance minimum is
  strictly below the Safe Harbor minimum, so on a tie the flag is off and the payment is
  the Safe Harbor minimum; and the savings are the absolute difference of the two minima.
\<close>

theorem calculateTaxes_relations:
  "(let r = calculateTaxes inputs in
      selfEmploymentTax r
        = calculateSelfEmploymentTax (currentYearProfit inputs) (filingStatus inputs)
    \<and> incomeTax r
        = calculateIncomeTax (currentYearProfit inputs)
            (seTaxDeduction (selfEmploymentTax r)) (filingStatus inputs)
    \<and> currentYearTotalTax r = totalSETax (selfEmploymentTax r) + federalIncomeTax (incomeTax r)
    \<and> currentYearAvoidanceMinimum r = currentYearTotalTax r * 0.9
    \<and> safeHarborMinimum r
        = sh_safeHarborMinimum (calculateSafeHarbor (priorYearTax inputs) (priorYearAGI inputs))
    \<and> requiredAnnualPayment r = min (safeHarborMinimum r) (currentYearAvoidanceMinimum r)
    \<and> quarterlyPayment r = requiredAnnualPayment r / 4
    \<and> quarterlyPayment r * 4 = requiredAnnualPayment r
    \<and> isCurrentYearLower r = (currentYearAvoidanceMinimum r < safeHarborMinimum r)
    \<and> (currentYearAvoidanceMinimum r = safeHarborMinimum r \<longrightarrow>
          \<not> isCurrentYearLower r \<and> requiredAnnualPayment r = safeHarborMinimum r)
    \<and> savings r = \<bar>safeHarborMinimum r - currentYearAvoidanceMinimum r\<bar>)"
  by (simp add: calculateTaxes_def TAX_CONSTANTS_2025_def Let_def)

theorem calculateTaxes_relations_witness:
  "currentYearAvoidanceMinimum (calculateTaxes \<lparr> filingStatus = Single, priorYearTax = 0,
       priorYearAGI = 0, currentYearProfit = 0 \<rparr>)
     = safeHarborMinimum (calculateTaxes \<lparr> filingStatus = Single, priorYearTax = 0,
       priorYearAGI = 0, currentYearProfit = 0 \<rparr>)
   \<and> \<not> isCurrentYearLower (calculateTaxes \<lparr> filingStatus = Single, priorYearTax = 0,
       priorYearAGI = 0, currentYearProfit = 0 \<rparr>)
   \<and> requiredAnnualPayment (calculateTaxes \<lparr> filingStatus = Single, priorYearTax = 0,
       priorYearAGI = 0, currentYearProfit = 0 \<rparr>) = 0"
proof -
  let ?inputs = "\<lparr> filingStatus = Single, priorYearTax = 0, priorYearAGI = 0,
                  currentYearProfit = 0 \<rparr>"
  have se: "calculateSelfEmploymentTax 0 Single
          = \<lparr> socialSecurityTax = 0, medicareTax = 0, additionalMedicareTax = 0,
              totalSETax = 0, seTaxDeduction = 0 \<rparr>"
    by (simp add: calculateSelfEmploymentTax_def TAX_CONSTANTS_2025_def Let_def)
  have it: "calculateIncomeTax 0 0 Single
          = \<lparr> taxableIncome = 0, federalIncomeTax = 0, bracketDetails = [] \<rparr>"
    by (simp add: calculateIncomeTax_def TAX_CONSTANTS_2025_def Let_def)
  have sh: "calculateSafeHarbor 0 0 = \<lparr> sh_safeHarborMinimum = 0, sh_multiplier = 1 \<rparr>"
    by (simp add: calculateSafeHarbor_def TAX_CONSTANTS_2025_def Let_def)
  have r: "calculateTaxes ?inputs =
      \<lparr> selfEmploymentTax =
          \<lparr> socialSecurityTax = 0, medicareTax = 0, additionalMedicareTax = 0,
            totalSETax = 0, seTaxDeduction = 0 \<rparr>,
        incomeTax = \<lparr> taxableIncome = 0, federalIncomeTax = 0, bracketDetails = [] \<rparr>,
        currentYearTotalTax = 0, currentYearAvoidanceMinimum = 0,
        safeHarborMultiplier = 1, safeHarborMinimum = 0,
        requiredAnnualPayment = 0, quarterlyPayment = 0,
        isCurrentYearLower = False, savings = 0 \<rparr>"
    by (simp add: calculateTaxes_def Let_def se it sh TAX_CONSTANTS_2025_def)
  show ?thesis
    using calculateTaxes_relations [of ?inputs] unfolding r by simp
qed

text \<open>
  C2. \<open>calculateSafeHarbor\<close> applies the multiplier 1.1 exactly when the prior-year AGI is
  strictly above 150000 and 1.0 otherwise; an AGI of exactly 150000 gives 1.0 and an AGI
  of 150001 gives 1.1; the minimum returned is the prior-year tax times that multiplier.
\<close>

theorem calculateSafeHarbor_multiplier:
  "sh_multiplier (calculateSafeHarbor t agi) = (if agi > 150000 then 1.1 else 1.0)
   \<and> sh_safeHarborMinimum (calculateSafeHarbor t agi) = t * sh_multiplier (calculateSafeHarbor t agi)
   \<and> sh_multiplier (calculateSafeHarbor t 150000) = 1.0
   \<and> sh_multiplier (calculateSafeHarbor t 150001) = 1.1"
  by (simp add: calculateSafeHarbor_def TAX_CONSTANTS_2025_def Let_def)

text \<open>
  C3. Scenario A: a single filer with prior-year tax 25000, prior-year AGI 140000 and
  current-year profit 200000. The SE-taxable earnings are 200000 \<times> 0.9235 = 184700, the
  Social Security tax is min(184700, 176100) \<times> 0.124 = 21836.4, the Medicare tax is
  184700 \<times> 0.029 = 5356.3, the additional Medicare tax is 0, the total SE tax is 27192.7,
  the Safe Harbor multiplier is 1.0 and the minimum 25000, the required annual payment is
  25000 with \<open>isCurrentYearLower\<close> false, and the quarterly payment is 6250.
\<close>

theorem calculateTaxes_scenario_A:
  "(let r = calculateTaxes \<lparr> filingStatus = Single, priorYearTax = 25000,
                priorYearAGI = 140000, currentYearProfit = 200000 \<rparr> in
      (200000 :: real) * 0.9235 = 184700
    \<and> socialSecurityTax (selfEmploymentTax r) = min 184700 176100 * 0.124
    \<and> socialSecurityTax (selfEmploymentTax r) = 21836.4
    \<and> medicareTax (selfEmploymentTax r) = 184700 * 0.029
    \<and> medicareTax (selfEmploymentTax r) = 5356.3
    \<and> additionalMedicareTax (selfEmploymentTax r) = 0
    \<and> totalSETax (selfEmploymentTax r) = 27192.7
    \<and> safeHarborMultiplier r = 1.0
    \<and> safeHarborMinimum r = 25000
    \<and> requiredAnnualPayment r = 25000
    \<and> isCurrentYearLower r = False
    \<and> quarterlyPayment r = 6250)"
proof -
  have se: "calculateSelfEmploymentTax 200000 Single
          = \<lparr> socialSecurityTax = 21836.4, medicareTax = 5356.3, additionalMedicareTax = 0,
              totalSETax = 27192.7, seTaxDeduction = 271927 / 20 \<rparr>"
    by (simp add: calculateSelfEmploymentTax_def TAX_CONSTANTS_2025_def Let_def)
  have it: "federalIncomeTax (calculateIncomeTax 200000 (271927 / 20) Single) = 33803.736"
    by (simp add: calculateIncomeTax_def TAX_CONSTANTS_2025_def bracketSize_def Math_min_def Let_def)
  have sh: "calculateSafeHarbor 25000 140000
          = \<lparr> sh_safeHarborMinimum = 25000, sh_multiplier = 1 \<rparr>"
    by (simp add: calculateSafeHarbor_def TAX_CONSTANTS_2025_def Let_def)
  show ?thesis
    by (simp add: calculateTaxes_def Let_def se it sh TAX_CONSTANTS_2025_def)
qed

text \<open>
  C4. For every filing status and every non-negative net profit, with SE-taxable earnings
  of netProfit \<times> 0.9235: the Social Security tax is min(earnings, 176100) \<times> 0.124, the
  Medicare tax is earnings \<times> 0.029, the additional Medicare tax is
  max(0, earnings - threshold) \<times> 0.009 with the threshold of the filing status (200000
  single, 250000 married), the total SE tax is exactly the sum of the three, every
  component is non-negative, and the SE tax deduction is exactly half of the total.
\<close>

theorem calculateSelfEmploymentTax_components:
  "0 \<le> netProfit \<Longrightarrow>
   (let r = calculateSelfEmploymentTax netProfit fs;
        seTaxableEarnings = netProfit * 0.9235;
        threshold = (case fs of Single \<Rightarrow> 200000 | Married \<Rightarrow> 250000) in
      socialSecurityTax r = min seTaxableEarnings 176100 * 0.124
    \<and> medicareTax r = seTaxableEarnings * 0.029
    \<and> additionalMedicareTax r = max 0 (seTaxableEarnings - threshold) * 0.009
    \<and> totalSETax r = socialSecurityTax r + medicareTax r + additionalMedicareTax r
    \<and> 0 \<le> socialSecurityTax r \<and> 0 \<le> medicareTax r \<and> 0 \<le> additionalMedicareTax r
    \<and> 0 \<le> totalSETax r
    \<and> seTaxDeduction r = totalSETax r * 0.5)"
  by (cases fs) (simp_all add: calculateSelfEmploymentTax_def TAX_CONSTANTS_2025_def Let_def)

theorem calculateSelfEmploymentTax_components_witness:
  "(0::real) \<le> 300000
   \<and> additionalMedicareTax (calculateSelfEmploymentTax 300000 Single) = 693.45
   \<and> totalSETax (calculateSelfEmploymentTax 300000 Single) = 30564.3
   \<and> seTaxDeduction (calculateSelfEmploymentTax 300000 Single) = 15282.15"
  using calculateSelfEmploymentTax_components [of 300000 Single]
  by (simp add: eval_defs)

text \<open>
  C5, as it holds of the source's doubles. For every call of \<open>calculateIncomeTax\<close> whose
  taxable income is below 2 to the power 53, the amounts \<open>taxableAtRate\<close> of the returned
  bracket details add up to the taxable income exactly; and for every call, whatever the
  income, every entry has a strictly positive \<open>taxableAtRate\<close> and the entries are in
  strictly ascending order of rate. Below that bound the doubles are spaced by at most 1,
  so subtracting an integer bracket size from the remaining income never rounds.
\<close>

theorem calculateIncomeTax64_details_partition:
  "(taxableIncome (calculateIncomeTax64 np d fs) < 2 ^ 53 \<longrightarrow>
      sum_list (map taxableAtRate (bracketDetails (calculateIncomeTax64 np d fs)))
        = taxableIncome (calculateIncomeTax64 np d fs))
   \<and> (\<forall>e \<in> set (bracketDetails (calculateIncomeTax64 np d fs)). 0 < taxableAtRate e)
   \<and> sorted_wrt (<) (map rate (bracketDetails (calculateIncomeTax64 np d fs)))"
proof (intro conjI impI ballI)
  assume "taxableIncome (calculateIncomeTax64 np d fs) < 2 ^ 53"
  with brackets_sizeExact brackets_nonempty brackets_last_unbounded64 taxableIncome64_nonneg
  have "sum_list (amounts64 (TAX_BRACKETS_2025 fs) (taxableIncome (calculateIncomeTax64 np d fs)))
          = taxableIncome (calculateIncomeTax64 np d fs)"
    using taxableIncome64_double by (rule amounts64_sum)
  then show "sum_list (map taxableAtRate (bracketDetails (calculateIncomeTax64 np d fs)))
          = taxableIncome (calculateIncomeTax64 np d fs)"
    by (simp only: taxableAtRate_calculateIncomeTax64)
next
  fix e
  assume "e \<in> set (bracketDetails (calculateIncomeTax64 np d fs))"
  then have "taxableAtRate e \<in> set (map taxableAtRate (bracketDetails (calculateIncomeTax64 np d fs)))"
    by simp
  then have "taxableAtRate e
      \<in> set (amounts64 (TAX_BRACKETS_2025 fs) (taxableIncome (calculateIncomeTax64 np d fs)))"
    by (simp only: taxableAtRate_calculateIncomeTax64)
  then show "0 < taxableAtRate e" by (rule amounts64_positive)
next
  show "sorted_wrt (<) (map rate (bracketDetails (calculateIncomeTax64 np d fs)))"
    unfolding bracketDetails_calculateIncomeTax64
    by (rule bracketLoop64_rates_sorted) (simp add: brackets_rates_sorted64)
qed

theorem calculateIncomeTax64_details_partition_witness:
  "taxableIncome (calculateIncomeTax64 30000 0 Single) < 2 ^ 53
   \<and> sum_list (map taxableAtRate (bracketDetails (calculateIncomeTax64 30000 0 Single))) = 14250
   \<and> hd (bracketDetails (calculateIncomeTax64 30000 0 Single))
        \<in> set (bracketDetails (calculateIncomeTax64 30000 0 Single))
   \<and> 0 < taxableAtRate (hd (bracketDetails (calculateIncomeTax64 30000 0 Single)))"
proof -
  let ?r = "calculateIncomeTax64 30000 0 Single"
  have income: "taxableIncome ?r = 14250"
    by (simp add: taxableIncome_calculateIncomeTax64 TAX_CONSTANTS_2025_def round64_numeral)
  then have small: "taxableIncome ?r < 2 ^ 53" by simp
  with calculateIncomeTax64_details_partition [of 30000 0 Single] income
  have total: "sum_list (map taxableAtRate (bracketDetails ?r)) = 14250" by simp
  then have "bracketDetails ?r \<noteq> []" by auto
  then have member: "hd (bracketDetails ?r) \<in> set (bracketDetails ?r)" by simp
  with calculateIncomeTax64_details_partition [of 30000 0 Single]
  have "0 < taxableAtRate (hd (bracketDetails ?r))" by blast
  with small total member show ?thesis by simp
qed

text \<open>
  C5 without the bound fails: from 2 to the power 53 on, the doubles are spaced by 2 or
  more, and subtracting an odd bracket size rounds. For a single filer with a net profit
  of 10000000000000000 the taxable income is 9999999999984250, three of the six
  subtractions round (each a tie, to the even neighbour), and the seven amounts add up
  to 9999999999984251.
\<close>

theorem calculateIncomeTax64_sum_counterexample:
  "taxableIncome (calculateIncomeTax64 10000000000000000 0 Single) = 9999999999984250
   \<and> map taxableAtRate (bracketDetails (calculateIncomeTax64 10000000000000000 0 Single))
       = [11926, 36550, 54875, 93950, 53225, 375825, 9999999999357900]
   \<and> sum_list (map taxableAtRate (bracketDetails (calculateIncomeTax64 10000000000000000 0 Single)))
       \<noteq> taxableIncome (calculateIncomeTax64 10000000000000000 0 Single)"
proof -
  let ?r = "calculateIncomeTax64 10000000000000000 0 Single"
  have income: "taxableIncome ?r = 9999999999984250"
    by (simp add: taxableIncome_calculateIncomeTax64 TAX_CONSTANTS_2025_def
          round64_ge_one [where e = 53] roundHalfEven_def)
  have "amounts64 (TAX_BRACKETS_2025 Single) 9999999999984250
          = [11926, 36550, 54875, 93950, 53225, 375825, 9999999999357900]"
    by (simp add: bracketSize64_def Math_min_def round64_numeral round64_zero
          round64_ge_one [where e = 53] roundHalfEven_def)
  then have amounts: "map taxableAtRate (bracketDetails ?r)
          = [11926, 36550, 54875, 93950, 53225, 375825, 9999999999357900]"
    by (simp only: taxableAtRate_calculateIncomeTax64 income)
  show ?thesis unfolding amounts income by simp
qed

text \<open>
  C6. For every filing status and every net profit, however large, the Social Security
  component of \<open>calculateSelfEmploymentTax\<close> is at most wage base \<times> rate, 176100 \<times> 0.124.
\<close>

theorem socialSecurityTax_capped:
  "socialSecurityTax (calculateSelfEmploymentTax netProfit fs) \<le> 176100 * 0.124"
  by (simp add: calculateSelfEmploymentTax_def TAX_CONSTANTS_2025_def Let_def)

text \<open>
  C7. For a fixed filing status the federal income tax is monotonically non-decreasing in
  the taxable income: of two calls of \<open>calculateIncomeTax\<close>, the one with the smaller (or
  equal) taxable income yields the smaller (or equal) federal income tax. Taxable incomes
  are never negative, being a maximum with 0.
\<close>

theorem calculateIncomeTax_monotone:
  "taxableIncome (calculateIncomeTax np1 d1 fs) \<le> taxableIncome (calculateIncomeTax np2 d2 fs) \<Longrightarrow>
   federalIncomeTax (calculateIncomeTax np1 d1 fs) \<le> federalIncomeTax (calculateIncomeTax np2 d2 fs)"
  unfolding federalIncomeTax_calculateIncomeTax
  by (rule bracketLoop_mono [OF brackets_sizePositive brackets_rates_nonneg]) simp_all

theorem calculateIncomeTax_monotone_witness:
  "taxableIncome (calculateIncomeTax 30000 0 Single) \<le> taxableIncome (calculateIncomeTax 90000 0 Single)
   \<and> federalIncomeTax (calculateIncomeTax 30000 0 Single)
       \<le> federalIncomeTax (calculateIncomeTax 90000 0 Single)"
proof -
  have h: "taxableIncome (calculateIncomeTax 30000 0 Single)
             \<le> taxableIncome (calculateIncomeTax 90000 0 Single)"
    by (simp add: eval_defs)
  from h calculateIncomeTax_monotone [OF h] show ?thesis by simp
qed

text \<open>
  C8. The zero boundary. When the taxable income is exactly 0, \<open>calculateIncomeTax\<close>
  returns no bracket details and a federal income tax of 0. When the current-year profit
  is 0, every SE tax component and the SE tax deduction are 0, and the taxable income,
  max(0, 0 - standard deduction), is 0.
\<close>

theorem zero_boundary:
  "(taxableIncome (calculateIncomeTax np d fs) = 0 \<longrightarrow>
      bracketDetails (calculateIncomeTax np d fs) = []
      \<and> federalIncomeTax (calculateIncomeTax np d fs) = 0)
   \<and> (currentYearProfit inputs = 0 \<longrightarrow>
        selfEmploymentTax (calculateTaxes inputs)
          = \<lparr> socialSecurityTax = 0, medicareTax = 0, additionalMedicareTax = 0,
              totalSETax = 0, seTaxDeduction = 0 \<rparr>
        \<and> taxableIncome (incomeTax (calculateTaxes inputs)) = 0)"
proof (intro conjI impI)
  assume z: "taxableIncome (calculateIncomeTax np d fs) = 0"
  show "bracketDetails (calculateIncomeTax np d fs) = []"
    unfolding bracketDetails_calculateIncomeTax z by (simp add: bracketLoop_stop)
  show "federalIncomeTax (calculateIncomeTax np d fs) = 0"
    unfolding federalIncomeTax_calculateIncomeTax z by (simp add: bracketLoop_stop)
next
  assume p: "currentYearProfit inputs = 0"
  have se: "calculateSelfEmploymentTax 0 s
          = \<lparr> socialSecurityTax = 0, medicareTax = 0, additionalMedicareTax = 0,
              totalSETax = 0, seTaxDeduction = 0 \<rparr>" for s
    by (cases s) (simp_all add: calculateSelfEmploymentTax_def TAX_CONSTANTS_2025_def Let_def)
  show "selfEmploymentTax (calculateTaxes inputs)
          = \<lparr> socialSecurityTax = 0, medicareTax = 0, additionalMedicareTax = 0,
              totalSETax = 0, seTaxDeduction = 0 \<rparr>"
    by (simp add: calculateTaxes_def Let_def p se)
  show "taxableIncome (incomeTax (calculateTaxes inputs)) = 0"
    by (cases "filingStatus inputs")
       (simp_all add: calculateTaxes_def Let_def p se taxableIncome_calculateIncomeTax
          TAX_CONSTANTS_2025_def)
qed

theorem zero_boundary_witness:
  "taxableIncome (calculateIncomeTax 10000 0 Single) = 0
   \<and> bracketDetails (calculateIncomeTax 10000 0 Single) = []
   \<and> federalIncomeTax (calculateIncomeTax 10000 0 Single) = 0
   \<and> currentYearProfit \<lparr> filingStatus = Married, priorYearTax = 5000,
         priorYearAGI = 60000, currentYearProfit = 0 \<rparr> = 0
   \<and> totalSETax (selfEmploymentTax (calculateTaxes \<lparr> filingStatus = Married, priorYearTax = 5000,
         priorYearAGI = 60000, currentYearProfit = 0 \<rparr>)) = 0
   \<and> taxableIncome (incomeTax (calculateTaxes \<lparr> filingStatus = Married, priorYearTax = 5000,
         priorYearAGI = 60000, currentYearProfit = 0 \<rparr>)) = 0"
proof -
  have h: "taxableIncome (calculateIncomeTax 10000 0 Single) = 0"
    by (simp add: eval_defs)
  from zero_boundary [of 10000 0 Single "\<lparr> filingStatus = Married, priorYearTax = 5000,
         priorYearAGI = 60000, currentYearProfit = 0 \<rparr>"] h
  show ?thesis by simp
qed

text \<open>
  C9. \<open>parseCurrency\<close> is total: its model has no error branch because none of
  \<open>replace\<close>, \<open>parseFloat\<close> and \<open>isNaN\<close> throws on a string. It keeps only digits, the
  decimal point and the minus sign, parses the rest as a number, and returns 0 whenever
  that is \<open>NaN\<close>, otherwise the number parsed; in particular every string without a digit
  resolves to 0.
\<close>

theorem parseCurrency_total:
  "cleaned v = filter (\<lambda>c. c \<in> set ''0123456789.-'') v
   \<and> (parseFloat (cleaned v) = None \<longrightarrow> parseCurrency v = 0)
   \<and> (\<forall>x. parseFloat (cleaned v) = Some x \<longrightarrow> parseCurrency v = x)
   \<and> ((\<forall>c \<in> set v. c \<notin> set ''0123456789'') \<longrightarrow> parseCurrency v = 0)"
proof (intro conjI impI allI)
  show "cleaned v = filter (\<lambda>c. c \<in> set ''0123456789.-'') v"
    unfolding cleaned_def by (rule filter_cong) (simp_all only: keptChar_iff)
next
  assume "parseFloat (cleaned v) = None"
  then show "parseCurrency v = 0" by (simp add: parseCurrency_def)
next
  fix x assume "parseFloat (cleaned v) = Some x"
  then show "parseCurrency v = x" by (simp add: parseCurrency_def)
next
  assume "\<forall>c \<in> set v. c \<notin> set ''0123456789''"
  then have "\<forall>c \<in> set (cleaned v). \<not> isDigit c"
    by (simp add: cleaned_def isDigit_def)
  then have "parseFloat (cleaned v) = None" by (rule parseFloat_no_digit)
  then show "parseCurrency v = 0" by (simp add: parseCurrency_def)
qed

theorem parseCurrency_total_witness:
  "set ''$ USD, n/a'' \<inter> set ''0123456789'' = {} \<and> parseCurrency ''$ USD, n/a'' = 0
   \<and> parseFloat (cleaned ''--5'') = None \<and> parseCurrency ''--5'' = 0
   \<and> parseFloat (cleaned ''$1,234.56'') = Some 1234.56 \<and> parseCurrency ''$1,234.56'' = 1234.56"
proof -
  have none: "parseFloat (cleaned ''--5'') = None"
    by (simp add: parse_defs)
  have some: "parseFloat (cleaned ''$1,234.56'') = Some 1234.56"
    by (simp add: parse_defs)
  from parseCurrency_total [of "''$ USD, n/a''"]
  have "parseCurrency ''$ USD, n/a'' = 0" by simp
  moreover from parseCurrency_total [of "''--5''"] none
  have "parseCurrency ''--5'' = 0" by simp
  moreover from parseCurrency_total [of "''$1,234.56''"] some
  have "parseCurrency ''$1,234.56'' = 1234.56" by blast
  ultimately show ?thesis using none some by simp
qed

text \<open>
  C10. Every breakdown returned by \<open>calculateIncomeTax\<close> is internally consistent: the
  federal income tax is the sum of \<open>taxAtRate\<close> over the bracket details, every entry has
  \<open>taxAtRate = taxableAtRate \<times> rate\<close>, and the total is the sum over the first three entries
  plus the sum over the remaining ones, the "Higher Brackets" line of the calculator page.
\<close>

theorem calculateIncomeTax_consistent:
  "federalIncomeTax (calculateIncomeTax np d fs)
     = sum_list (map taxAtRate (bracketDetails (calculateIncomeTax np d fs)))
   \<and> (\<forall>e \<in> set (bracketDetails (calculateIncomeTax np d fs)).
         taxAtRate e = taxableAtRate e * rate e)
   \<and> federalIncomeTax (calculateIncomeTax np d fs)
     = sum_list (map taxAtRate (take 3 (bracketDetails (calculateIncomeTax np d fs))))
       + sum_list (map taxAtRate (drop 3 (bracketDetails (calculateIncomeTax np d fs))))"
proof -
  let ?r = "calculateIncomeTax np d fs"
  have total: "federalIncomeTax ?r = sum_list (map taxAtRate (bracketDetails ?r))"
    unfolding federalIncomeTax_calculateIncomeTax bracketDetails_calculateIncomeTax
    using bracketLoop_tax_sum [OF brackets_sizePositive, of fs "taxableIncome ?r" 0 "[]"]
    by simp
  have entries: "taxAtRate e = taxableAtRate e * rate e" if "e \<in> set (bracketDetails ?r)" for e
  proof -
    from that have "e \<in> set (snd (bracketLoop (TAX_BRACKETS_2025 fs) (taxableIncome ?r) 0 []))"
      by (simp only: bracketDetails_calculateIncomeTax)
    from bracketLoop_details [OF this] show ?thesis by auto
  qed
  have "sum_list (map taxAtRate (bracketDetails ?r))
          = sum_list (map taxAtRate (take 3 (bracketDetails ?r) @ drop 3 (bracketDetails ?r)))"
    by (simp only: append_take_drop_id)
  then have split: "sum_list (map taxAtRate (bracketDetails ?r))
          = sum_list (map taxAtRate (take 3 (bracketDetails ?r)))
            + sum_list (map taxAtRate (drop 3 (bracketDetails ?r)))"
    by (simp only: map_append sum_list_append)
  from total entries split show ?thesis by simp
qed

theorem calculateIncomeTax_consistent_witness:
  "hd (bracketDetails (calculateIncomeTax 300000 0 Married))
     \<in> set (bracketDetails (calculateIncomeTax 300000 0 Married))
   \<and> taxAtRate (hd (bracketDetails (calculateIncomeTax 300000 0 Married)))
       = taxableAtRate (hd (bracketDetails (calculateIncomeTax 300000 0 Married)))
         * rate (hd (bracketDetails (calculateIncomeTax 300000 0 Married)))
   \<and> federalIncomeTax (calculateIncomeTax 300000 0 Married) = 50133.86"
  using calculateIncomeTax_consistent [of 300000 0 Married]
  by (simp add: eval_defs)

end
